theory Spec2Isabelle
  imports Complex_Main "HOL-Library.Monad_Syntax"
begin

section \<open>Tensors\<close>

text \<open>
  The network computes on floating-point tensors. The embedding idealises every float
  as a real number (a complex number inside the transforms), so rounding is outside the
  model and the equalities proved below are exact. A tensor is a nested list; the batch
  axis is the outermost one. Every operation of the network treats the elements of a
  batch independently, so each \<open>forward\<close> is modelled on one batch element (a matrix
  time-steps x channels); \<open>forward_batch\<close> lifts it to a batch with \<open>those (map f x)\<close>,
  which fails as soon as one element fails. The dropout layer of the smoothing attention
  is modelled with its random draw, since it acts on one of its two paths only; every
  other dropout layer is the identity (probability 0, the default of every constructor,
  or evaluation mode). A library call that raises is the value \<open>None\<close>. The layers of
  the tensor library, the transforms, \<open>topk\<close> and \<open>scatter\<close> are modelled from the
  documentation of the libraries.
\<close>

type_synonym vec = "real list"
type_synonym mat = "real list list"
type_synonym tensor3 = "real list list list"

definition exists :: "'a option \<Rightarrow> bool" where
  "exists val = (val \<noteq> None)"

definition ncols :: "'a list list \<Rightarrow> nat" where
  "ncols m = (case m of [] \<Rightarrow> 0 | row # _ \<Rightarrow> length row)"

definition column :: "nat \<Rightarrow> 'a list list \<Rightarrow> 'a list" where
  "column c m = map (\<lambda>row. row ! c) m"

text \<open>\<open>Rearrange('n d -> d n')\<close> on a matrix with \<open>d\<close> columns, and its inverse on
  \<open>d\<close> columns of length \<open>n\<close>.\<close>

definition to_columns :: "nat \<Rightarrow> 'a list list \<Rightarrow> 'a list list" where
  "to_columns d m = map (\<lambda>c. column c m) [0..<d]"

definition from_columns :: "nat \<Rightarrow> 'a list list \<Rightarrow> 'a list list" where
  "from_columns n cs = map (\<lambda>t. map (\<lambda>col. col ! t) cs) [0..<n]"

definition is_mat :: "nat \<Rightarrow> nat \<Rightarrow> 'a list list \<Rightarrow> bool" where
  "is_mat n d m = (length m = n \<and> list_all (\<lambda>row. length row = d) m)"

text \<open>Elementwise arithmetic with the broadcasting rule of the tensor library: two axes
  are compatible when their lengths are equal or one of them is 1; otherwise the
  operation raises.\<close>

definition broadcast2 :: "('a \<Rightarrow> 'b \<Rightarrow> 'c option) \<Rightarrow> 'a list \<Rightarrow> 'b list \<Rightarrow> 'c list option" where
  "broadcast2 f xs ys =
     (if length xs = length ys then those (map2 f xs ys)
      else if length xs = 1 then those (map (f (hd xs)) ys)
      else if length ys = 1 then those (map (\<lambda>x. f x (hd ys)) xs)
      else None)"

definition vsub :: "vec \<Rightarrow> vec \<Rightarrow> vec option" where
  "vsub = broadcast2 (\<lambda>a b. Some (a - b))"

definition msub :: "mat \<Rightarrow> mat \<Rightarrow> mat option" where
  "msub = broadcast2 vsub"

definition vadd :: "vec \<Rightarrow> vec \<Rightarrow> vec option" where
  "vadd = broadcast2 (\<lambda>a b. Some (a + b))"

definition madd :: "mat \<Rightarrow> mat \<Rightarrow> mat option" where
  "madd = broadcast2 vadd"

text \<open>The sigmoid in exact arithmetic. The library computes it on 32-bit floats, where
  the result is rounded and reaches exactly 0 and 1 for parameters of large magnitude;
  that rounding is outside the model.\<close>

definition sigmoid :: "real \<Rightarrow> real" where
  "sigmoid x = 1 / (1 + exp (- x))"

section \<open>Layers of the tensor library\<close>

record Linear =
  weight :: "real list list"
  bias :: "real list"

text \<open>\<open>nn.Linear\<close> on the last axis: \<open>y = W x + b\<close> with \<open>W\<close> of shape out x in.\<close>

definition Linear_forward :: "Linear \<Rightarrow> vec \<Rightarrow> vec" where
  "Linear_forward l x = map2 (\<lambda>w b. sum_list (map2 (*) w x) + b) (weight l) (bias l)"

record Dropout =
  drop_p :: real
  training :: bool
  keep :: "nat list \<Rightarrow> bool"

text \<open>\<open>nn.Dropout\<close>: in training mode with probability \<open>p > 0\<close> an element is zeroed when the
  random draw of the call does not keep it, and scaled by \<open>1 / (1 - p)\<close> when it does;
  otherwise the layer is the identity. The draw is a field of the record: \<open>keep d pos\<close>
  tells whether the element at the indices \<open>pos\<close> is kept.\<close>

definition Dropout_forward :: "Dropout \<Rightarrow> nat list \<Rightarrow> real \<Rightarrow> real" where
  "Dropout_forward d pos v =
     (if training d \<and> 0 < drop_p d
      then (if keep d pos then v / (1 - drop_p d) else 0)
      else v)"

record LayerNorm =
  ln_weight :: "real list"
  ln_bias :: "real list"

definition LayerNorm_forward :: "LayerNorm \<Rightarrow> vec \<Rightarrow> vec" where
  "LayerNorm_forward l x =
     (let d = real (length x);
          mean = sum_list x / d;
          var = sum_list (map (\<lambda>v. (v - mean) ^ 2) x) / d
      in map2 (\<lambda>v (w, b). (v - mean) / sqrt (var + 1 / 100000) * w + b)
           x (zip (ln_weight l) (ln_bias l)))"

record Conv1d =
  in_channels :: nat
  kernel_size :: nat
  padding :: nat
  conv_weight :: "real list list list"
  conv_bias :: "real list"

text \<open>\<open>nn.Conv1d\<close> on a channel-major matrix (channels x time): zero padding on both
  sides, stride 1. It raises when the number of channels is not \<open>in_channels\<close> or when the
  padded input is shorter than the kernel.\<close>

definition Conv1d_forward :: "Conv1d \<Rightarrow> nat \<Rightarrow> mat \<Rightarrow> mat option" where
  "Conv1d_forward c n x =
     (let p = padding c; k = kernel_size c in
      if length x \<noteq> in_channels c \<or> n + 2 * p < k then None
      else Some (map2 (\<lambda>w b. map (\<lambda>t. b + (\<Sum>ci<in_channels c. \<Sum>j<k.
                        w ! ci ! j * (replicate p 0 @ x ! ci @ replicate p 0) ! (t + j)))
                      [0..<n + 2 * p - k + 1])
                  (conv_weight c) (conv_bias c)))"

section \<open>Helper classes of the repository\<close>

text \<open>\<open>InputEmbedding\<close>: rearrange to channel-major, convolve, dropout, rearrange back.
  The constructor sets \<open>padding = kernel_size // 2\<close>.\<close>

definition InputEmbedding :: "Conv1d \<Rightarrow> mat \<Rightarrow> mat option" where
  "InputEmbedding c x =
     (if \<not> list_all (\<lambda>row. length row = in_channels c) x then None
      else do {
        y \<leftarrow> Conv1d_forward c (length x) (to_columns (in_channels c) x);
        Some (from_columns (length x + 2 * padding c - kernel_size c + 1) y)
      })"

record FeedForward =
  ff_in :: Linear
  ff_out :: Linear

definition FeedForward_forward :: "FeedForward \<Rightarrow> vec \<Rightarrow> vec" where
  "FeedForward_forward f x = Linear_forward (ff_out f) (map sigmoid (Linear_forward (ff_in f) x))"

record FeedForwardBlock =
  ffb_norm :: LayerNorm
  ff :: FeedForward

definition FeedForwardBlock_forward :: "FeedForwardBlock \<Rightarrow> mat \<Rightarrow> mat" where
  "FeedForwardBlock_forward f x =
     map (\<lambda>row. LayerNorm_forward (ffb_norm f) (map2 (+) row (FeedForward_forward (ff f) row))) x"

section \<open>The transforms\<close>

text \<open>Modelled from the library documentation (the transforms are not code of the
  repository). \<open>next_fast_len target\<close> is the least number with no prime factor other than
  2, 3 and 5 that is at least \<open>target\<close>. \<open>rfft n\<close> pads or trims its input to length \<open>n\<close>
  and returns the bins \<open>0 .. n div 2\<close> of the discrete Fourier transform; \<open>irfft n\<close> pads or
  trims its input to \<open>n div 2 + 1\<close> bins, extends them by conjugate symmetry and returns
  the real inverse transform of length \<open>n\<close>.\<close>

function divide_out :: "nat \<Rightarrow> nat \<Rightarrow> nat" where
  "divide_out p n = (if 1 < p \<and> 0 < n \<and> p dvd n then divide_out p (n div p) else n)"
  by pat_completeness auto
termination
  by (relation "measure snd") auto

definition smooth5 :: "nat \<Rightarrow> bool" where
  "smooth5 n = (divide_out 5 (divide_out 3 (divide_out 2 n)) = 1)"

definition next_fast_len :: "nat \<Rightarrow> nat" where
  "next_fast_len target =
     (if target \<le> 6 then target
      else case find smooth5 [target..<2 * target] of Some m \<Rightarrow> m | None \<Rightarrow> 2 * target)"

definition pad_to :: "nat \<Rightarrow> 'a::zero list \<Rightarrow> 'a list" where
  "pad_to n xs = take n xs @ replicate (n - length xs) 0"

definition dft :: "nat \<Rightarrow> (nat \<Rightarrow> real) \<Rightarrow> nat \<Rightarrow> complex" where
  "dft n x k = (\<Sum>j<n. complex_of_real (x j) * cis (- (2 * pi * real j * real k / real n)))"

definition rfft :: "nat \<Rightarrow> real list \<Rightarrow> complex list" where
  "rfft n x = (let xp = pad_to n x in map (dft n (\<lambda>j. xp ! j)) [0..<n div 2 + 1])"

definition hermitian_ext :: "nat \<Rightarrow> complex list \<Rightarrow> nat \<Rightarrow> complex" where
  "hermitian_ext n f k = (if k \<le> n div 2 then f ! k else cnj (f ! (n - k)))"

definition irfft :: "nat \<Rightarrow> complex list \<Rightarrow> real list" where
  "irfft n f =
     (let fp = pad_to (n div 2 + 1) f in
      map (\<lambda>j. Re (\<Sum>k<n. hermitian_ext n fp k * cis (2 * pi * real j * real k / real n)) / real n)
        [0..<n])"

section \<open>Convolution by transform\<close>

text \<open>\<open>conv1d_fft\<close> transforms along the time axis (\<open>dim = -2\<close>), separately for every
  channel; \<open>conv1d_fft_channel\<close> is what it does to one channel. \<open>roll(-1)\<close> is \<open>rotate 1\<close>.
  A transform of length 0 raises, and \<open>index_select\<close> raises on a negative index, which is
  the case when the transform is shorter than the signal (\<open>fast_len - N < 0\<close>). Both depend
  on the shape alone, so \<open>conv1d_fft\<close> tests them whatever the number of channels.\<close>

definition conv1d_fft_channel :: "vec \<Rightarrow> vec \<Rightarrow> vec option" where
  "conv1d_fft_channel x weights =
     (let N = length x;
          M = length weights;
          fast_len = next_fast_len (N + M - 1)
      in if fast_len = 0 \<or> fast_len < N then None
         else let f_x = rfft fast_len x;
                  f_weight = rfft fast_len weights;
                  f_v_weight = map2 (\<lambda>a b. a * cnj b) f_x f_weight;
                  out = irfft fast_len f_v_weight;
                  out = rotate 1 out;
                  indices = [fast_len - N..<fast_len]
              in Some (map (\<lambda>i. out ! i) indices))"

definition conv1d_fft :: "mat \<Rightarrow> vec \<Rightarrow> mat option" where
  "conv1d_fft x weights =
     (let N = length x;
          M = length weights;
          fast_len = next_fast_len (N + M - 1)
      in if fast_len = 0 \<or> fast_len < N then None
         else do {
           cs \<leftarrow> those (map (\<lambda>c. conv1d_fft_channel (column c x) weights) [0..<ncols x]);
           Some (from_columns N cs)
         })"

text \<open>The reference of the specification: the direct causal convolution, in which the
  output at time \<open>t\<close> is the weighted sum of the inputs at times \<open>s \<le> t\<close>, the kernel being
  reversed so that its last entry weighs the current input.\<close>

definition direct_causal_convolution :: "vec \<Rightarrow> vec \<Rightarrow> vec" where
  "direct_causal_convolution x weights =
     map (\<lambda>t. sum_list (map (\<lambda>s. if t - s < length weights
                                  then x ! s * weights ! (length weights - 1 - (t - s)) else 0)
                         [0..<Suc t]))
       [0..<length x]"

section \<open>Multi-head exponential smoothing attention\<close>

record MHESA =
  heads :: nat
  initial_state :: "real list list"
  dropout :: Dropout
  alpha :: "real list"
  project_in :: Linear
  project_out :: Linear

text \<open>The stages of \<open>naive_Aes\<close> for the head of index \<open>h\<close>: the index tensor
  \<open>(indices - (arange + 1)) % n\<close> with rows \<open>t\<close> and columns \<open>l\<close>, the gather along the last
  axis, the dropout of the gathered weights (at the indices \<open>[h, t, l]\<close>), the lower
  triangle, and the product \<open>einsum('n d, m n -> m d')\<close>.\<close>

definition naive_Aes_indices :: "nat \<Rightarrow> nat list list" where
  "naive_Aes_indices n =
     map (\<lambda>t. map (\<lambda>l. nat ((int l - (int t + 1)) mod int n)) [0..<n]) [0..<n]"

definition gather :: "'a list \<Rightarrow> nat list \<Rightarrow> 'a list" where
  "gather w idx = map (\<lambda>i. w ! i) idx"

definition tril :: "real list list \<Rightarrow> real list list" where
  "tril m = map (\<lambda>t. map (\<lambda>l. if l \<le> t then m ! t ! l else 0) [0..<length (m ! t)]) [0..<length m]"

definition dropout_weights :: "Dropout \<Rightarrow> nat \<Rightarrow> mat \<Rightarrow> mat" where
  "dropout_weights d h m =
     map (\<lambda>t. map (\<lambda>l. Dropout_forward d [h, t, l] (m ! t ! l)) [0..<length (m ! t)]) [0..<length m]"

definition naive_Aes_weights :: "Dropout \<Rightarrow> nat \<Rightarrow> nat \<Rightarrow> vec \<Rightarrow> mat" where
  "naive_Aes_weights d h n w = tril (dropout_weights d h (map (gather w) (naive_Aes_indices n)))"

definition naive_Aes_head :: "Dropout \<Rightarrow> nat \<Rightarrow> mat \<Rightarrow> vec \<Rightarrow> mat" where
  "naive_Aes_head d h x w =
     (let n = length x;
          weights = naive_Aes_weights d h n w
      in map (\<lambda>m. map (\<lambda>c. \<Sum>l<n. x ! l ! c * weights ! m ! l) [0..<ncols x]) [0..<n])"

definition naive_Aes :: "Dropout \<Rightarrow> mat list \<Rightarrow> vec list \<Rightarrow> mat list" where
  "naive_Aes d x weights =
     map (\<lambda>h. naive_Aes_head d h (x ! h) (weights ! h)) [0..<min (length x) (length weights)]"

text \<open>\<open>rearrange('n (h d) -> h n d')\<close> and \<open>rearrange('h n d -> n (h d)')\<close>.\<close>

definition split_heads :: "nat \<Rightarrow> mat \<Rightarrow> mat list" where
  "split_heads h x =
     (let d = ncols x div h in map (\<lambda>i. map (\<lambda>row. take d (drop (i * d) row)) x) [0..<h])"

definition merge_heads :: "nat \<Rightarrow> mat list \<Rightarrow> mat" where
  "merge_heads n x = map (\<lambda>t. concat (map (\<lambda>xh. xh ! t) x)) [0..<n]"

text \<open>The decay weights \<open>alpha * (1 - alpha) ** flip(arange)\<close> of one head, and the weights
  \<open>(1 - alpha) ** (arange + 1)\<close> of the initial state.\<close>

definition Aes_weights :: "real \<Rightarrow> nat \<Rightarrow> vec" where
  "Aes_weights a n = map (\<lambda>p. a * (1 - a) ^ p) (rev [0..<n])"

definition init_weight :: "real \<Rightarrow> nat \<Rightarrow> vec" where
  "init_weight a n = map (\<lambda>p. (1 - a) ^ (p + 1)) [0..<n]"

definition MHESA_forward :: "MHESA \<Rightarrow> mat \<Rightarrow> bool \<Rightarrow> mat option" where
  "MHESA_forward m x naive =
     (let n = length x;
          h = heads m;
          x = map (Linear_forward (project_in m)) x;
          x = split_heads h x;
          x = map2 (#) (initial_state m) x;
          x = map (\<lambda>xh. map2 (map2 (-)) (tl xh) (butlast xh)) x;
          alpha = map sigmoid (alpha m);
          weights = map (\<lambda>a. Aes_weights a n) alpha
      in do {
        output \<leftarrow> (if naive then Some (naive_Aes (dropout m) x weights)
                   else those (map2 conv1d_fft x weights));
        let init_output = map2 (\<lambda>a s. map (\<lambda>w. map (\<lambda>v. w * v) s) (init_weight a n))
                            alpha (initial_state m);
            output = map2 (map2 (map2 (+))) output init_output;
            output = merge_heads n output
        in Some (map (Linear_forward (project_out m)) output)
      })"

definition MHESA_forward_batch :: "MHESA \<Rightarrow> tensor3 \<Rightarrow> bool \<Rightarrow> tensor3 option" where
  "MHESA_forward_batch m x naive = those (map (\<lambda>xb. MHESA_forward m xb naive) x)"

section \<open>Frequency attention\<close>

text \<open>Modelled from the library documentation: \<open>topk k\<close> returns the indices of the \<open>k\<close>
  largest entries, largest first (ties in the order of the indices), and raises when
  there are fewer than \<open>k\<close> entries; \<open>scatter index src\<close> on a tensor \<open>self\<close> writes, for
  every position \<open>j\<close> of \<open>index\<close>, the value \<open>src[j]\<close> at \<open>self[index[j]]\<close>.\<close>

definition topk :: "nat \<Rightarrow> real list \<Rightarrow> nat list option" where
  "topk k xs =
     (if length xs < k then None
      else Some (take k (sort_key (\<lambda>i. - (xs ! i)) [0..<length xs])))"

definition scatter :: "'a list \<Rightarrow> nat list \<Rightarrow> 'a list \<Rightarrow> 'a list" where
  "scatter self index src = fold (\<lambda>j acc. acc[index ! j := src ! j]) [0..<length index] self"

record FrequencyAttention =
  K :: nat

text \<open>\<open>FrequencyAttention_channel\<close> is the forward pass on one channel of one batch element.
  The transforms and \<open>topk\<close> raise on the shape of the tensor alone (an empty time axis,
  fewer bins than \<open>K\<close>, an inverse transform of length 0), whatever the number of
  channels, which is the first test of \<open>FrequencyAttention_forward\<close>.\<close>

definition FrequencyAttention_channel :: "nat \<Rightarrow> vec \<Rightarrow> vec option" where
  "FrequencyAttention_channel k x =
     (if length x = 0 then None
      else let freqs = rfft (length x) x;
               amp = map cmod freqs
           in do {
             topk_amp_indices \<leftarrow> topk k amp;
             let topk_freqs = scatter (replicate (length freqs) 0) topk_amp_indices freqs;
                 n_out = 2 * (length topk_freqs - 1)
             in if n_out = 0 then None else Some (irfft n_out topk_freqs)
           })"

definition FrequencyAttention_forward :: "FrequencyAttention \<Rightarrow> mat \<Rightarrow> mat option" where
  "FrequencyAttention_forward fa x =
     (if length x = 0 \<or> length x div 2 + 1 < K fa \<or> 2 * (length x div 2) = 0 then None
      else do {
        cs \<leftarrow> those (map (\<lambda>c. FrequencyAttention_channel (K fa) (column c x)) [0..<ncols x]);
        Some (from_columns (2 * (length x div 2)) cs)
      })"

definition FrequencyAttention_forward_batch :: "FrequencyAttention \<Rightarrow> tensor3 \<Rightarrow> tensor3 option" where
  "FrequencyAttention_forward_batch fa x = those (map (FrequencyAttention_forward fa) x)"

section \<open>Level module\<close>

record Level =
  level_alpha :: real
  to_growth :: Linear
  to_seasonal :: Linear

definition Level_forward :: "Level \<Rightarrow> mat \<Rightarrow> mat \<Rightarrow> mat \<Rightarrow> mat option" where
  "Level_forward lv x latent_growth latent_seasonal =
     (let n = length x;
          alpha = sigmoid (level_alpha lv);
          seasonal = map (Linear_forward (to_seasonal lv)) latent_seasonal;
          weights = Aes_weights alpha n
      in do {
        residual \<leftarrow> msub x seasonal;
        seasonal_normalized_term \<leftarrow> conv1d_fft residual weights;
        let growth = map (Linear_forward (to_growth lv)) latent_growth;
            growth_smoothing_weights = map (\<lambda>p. (1 - alpha) ^ p) (rev [0..<n])
        in do {
          growth_term \<leftarrow> conv1d_fft x weights;
          madd seasonal_normalized_term growth_term
        }
      })"

section \<open>Decoder and main class\<close>

definition LevelStack_forward :: "mat \<Rightarrow> nat \<Rightarrow> mat option" where
  "LevelStack_forward x num_steps_forecast =
     (if x = [] then None else Some (replicate num_steps_forecast (last x)))"

definition LevelStack_forward_batch :: "tensor3 \<Rightarrow> nat \<Rightarrow> tensor3 option" where
  "LevelStack_forward_batch x num_steps_forecast =
     those (map (\<lambda>xb. LevelStack_forward xb num_steps_forecast) x)"

record EncoderLayer =
  freq_attn :: FrequencyAttention
  mhes_attn :: MHESA
  attn_post_ln :: LayerNorm
  ff_block :: "FeedForwardBlock option"
  level :: Level

record ETSFormer =
  input_embed :: Conv1d
  encoder_layers :: "EncoderLayer list"

text \<open>The constructor. The freshly initialised parameters of the embedding and of layer
  \<open>ind\<close> are inputs of the model (\<open>emb\<close>, \<open>fresh ind\<close>); \<open>range(layers)\<close> is \<open>[0..layers - 1]\<close>.\<close>

record LayerParams =
  fresh_mhesa :: MHESA
  fresh_ln :: LayerNorm
  fresh_ffb :: FeedForwardBlock
  fresh_level :: Level

definition is_last_layer :: "int \<Rightarrow> int \<Rightarrow> bool" where
  "is_last_layer ind layers = (ind - 1 = layers)"

definition ETSFormer_init :: "int \<Rightarrow> nat \<Rightarrow> Conv1d \<Rightarrow> (int \<Rightarrow> LayerParams) \<Rightarrow> ETSFormer" where
  "ETSFormer_init layers k emb fresh =
     \<lparr>input_embed = emb,
      encoder_layers = map (\<lambda>ind.
        \<lparr>freq_attn = \<lparr>K = k\<rparr>,
         mhes_attn = fresh_mhesa (fresh ind),
         attn_post_ln = fresh_ln (fresh ind),
         ff_block = (if \<not> is_last_layer ind layers then Some (fresh_ffb (fresh ind)) else None),
         level = fresh_level (fresh ind)\<rparr>) [0..layers - 1]\<rparr>"

text \<open>One iteration of the loop of \<open>ETSFormer.forward\<close> on the pair \<open>(x, z)\<close>. The level
  module is called with the seasonal latent in the position of \<open>latent_growth\<close> and the
  growth latent in the position of \<open>latent_seasonal\<close>, as the source does.\<close>

definition encoder_step :: "EncoderLayer \<Rightarrow> mat \<times> mat \<Rightarrow> (mat \<times> mat) option" where
  "encoder_step l xz =
     (case xz of (x, z) \<Rightarrow> do {
        latent_seasonal \<leftarrow> FrequencyAttention_forward (freq_attn l) z;
        z \<leftarrow> msub z latent_seasonal;
        latent_growth \<leftarrow> MHESA_forward (mhes_attn l) z False;
        z \<leftarrow> msub z latent_growth;
        let z = map (LayerNorm_forward (attn_post_ln l)) z;
            z = (case ff_block l of Some f \<Rightarrow> FeedForwardBlock_forward f z | None \<Rightarrow> z)
        in do {
          x \<leftarrow> Level_forward (level l) x latent_seasonal latent_growth;
          Some (x, z)
        }
      })"

fun encoder_loop :: "EncoderLayer list \<Rightarrow> mat \<times> mat \<Rightarrow> (mat \<times> mat) option" where
  "encoder_loop [] xz = Some xz"
| "encoder_loop (l # ls) xz = (case encoder_step l xz of None \<Rightarrow> None | Some xz' \<Rightarrow> encoder_loop ls xz')"

definition ETSFormer_forward :: "ETSFormer \<Rightarrow> mat \<Rightarrow> nat \<Rightarrow> mat option" where
  "ETSFormer_forward m x num_steps_forecast =
     do {
       z \<leftarrow> InputEmbedding (input_embed m) x;
       (x, z) \<leftarrow> encoder_loop (encoder_layers m) (x, z);
       LevelStack_forward x num_steps_forecast
     }"


section \<open>Shapes of the parameters\<close>









section \<open>A small model\<close>

text \<open>A model with one input channel, model width 1, one head of width 1, one layer,
  \<open>K = 1\<close> and kernel size 3, used to instantiate the theorems below.\<close>

definition example_linear :: Linear where
  "example_linear = \<lparr>weight = [[1]], bias = [0]\<rparr>"

definition example_dropout :: Dropout where
  "example_dropout = \<lparr>drop_p = 0, training = False, keep = (\<lambda>pos. True)\<rparr>"

text \<open>A dropout in training mode with probability \<open>1 / 2\<close>, at the draw that drops every
  element.\<close>

definition example_dropout_active :: Dropout where
  "example_dropout_active = \<lparr>drop_p = 1 / 2, training = True, keep = (\<lambda>pos. False)\<rparr>"

definition example_mhesa :: MHESA where
  "example_mhesa = \<lparr>heads = 1, initial_state = [[0]], dropout = example_dropout, alpha = [0],
     project_in = example_linear, project_out = example_linear\<rparr>"

definition example_ln :: LayerNorm where
  "example_ln = \<lparr>ln_weight = [1], ln_bias = [0]\<rparr>"

definition example_ffb :: FeedForwardBlock where
  "example_ffb = \<lparr>ffb_norm = example_ln,
     ff = \<lparr>ff_in = \<lparr>weight = [[1], [1], [1], [1]], bias = [0, 0, 0, 0]\<rparr>,
           ff_out = \<lparr>weight = [[1, 1, 1, 1]], bias = [0]\<rparr>\<rparr>\<rparr>"

definition example_level :: Level where
  "example_level = \<lparr>level_alpha = 0, to_growth = example_linear, to_seasonal = example_linear\<rparr>"

definition example_conv :: Conv1d where
  "example_conv = \<lparr>in_channels = 1, kernel_size = 3, padding = 1,
     conv_weight = [[[0, 1, 0]]], conv_bias = [0]\<rparr>"

definition example_params :: LayerParams where
  "example_params = \<lparr>fresh_mhesa = example_mhesa, fresh_ln = example_ln,
     fresh_ffb = example_ffb, fresh_level = example_level\<rparr>"

definition example_model :: "nat \<Rightarrow> ETSFormer" where
  "example_model k = ETSFormer_init 1 k example_conv (\<lambda>ind. example_params)"

section \<open>Decay weights\<close>

lemma sigmoid_pos: "0 < sigmoid a"
  by (simp add: sigmoid_def add_pos_pos)

lemma sigmoid_less_one: "sigmoid a < 1"
  by (simp add: sigmoid_def add_pos_pos)

lemma Aes_weights_nth: "Aes_weights a n = map (\<lambda>t. a * (1 - a) ^ (n - 1 - t)) [0..<n]"
  by (rule nth_equalityI) (simp_all add: Aes_weights_def rev_nth)

lemma Aes_weights_unit:
  assumes "0 < a" "a < 1"
  shows "list_all (\<lambda>w. 0 < w \<and> w < 1) (Aes_weights a n)"
proof -
  have "0 < a * (1 - a) ^ p \<and> a * (1 - a) ^ p < 1" for p
  proof -
    have "(1 - a) ^ p \<le> 1" using assms by (simp add: power_le_one)
    then have "a * (1 - a) ^ p \<le> a * 1" using assms by (intro mult_left_mono) simp_all
    moreover have "0 < a * (1 - a) ^ p" using assms by simp
    ultimately show ?thesis using assms by linarith
  qed
  then show ?thesis by (simp add: Aes_weights_def list_all_iff)
qed

text \<open>C7. The decay weights of a head with decay coefficient \<open>a\<close> and time length \<open>n\<close>
  are \<open>a * (1 - a) ^ k\<close> with \<open>k\<close> running over the reversed time indices: the weight at
  time \<open>t\<close> is \<open>a * (1 - a) ^ (n - 1 - t)\<close>, and the most recent step has weight \<open>a\<close>. For
  \<open>a = 0.5\<close> (the sigmoid of the parameter 0) and \<open>n = 4\<close> they are
  \<open>[0.5 * 0.5^3, 0.5 * 0.5^2, 0.5 * 0.5^1, 0.5 * 0.5^0]\<close>.\<close>

theorem decay_weights:
  "Aes_weights (1 / 2) 4 = [1 / 2 * (1 / 2) ^ 3, 1 / 2 * (1 / 2) ^ 2, 1 / 2 * (1 / 2) ^ 1, 1 / 2 * (1 / 2) ^ 0]
   \<and> Aes_weights a n = map (\<lambda>t. a * (1 - a) ^ (n - 1 - t)) [0..<n]
   \<and> last (Aes_weights a (Suc n)) = a
   \<and> sigmoid 0 = 1 / 2"
proof -
  have "Aes_weights (1 / 2) 4 = [1 / 2 * (1 / 2) ^ 3, 1 / 2 * (1 / 2) ^ 2, 1 / 2 * (1 / 2) ^ 1, 1 / 2 * (1 / 2) ^ 0]"
    by (simp add: Aes_weights_def upt_rec numeral_nat)
  moreover have "last (Aes_weights a (Suc n)) = a"
    by (simp add: Aes_weights_nth)
  moreover have "sigmoid 0 = 1 / 2"
    by (simp add: sigmoid_def)
  ultimately show ?thesis
    using Aes_weights_nth by blast
qed

section \<open>The constructor\<close>

lemma ETSFormer_init_nth:
  assumes "0 \<le> ind" "ind < layers"
  shows "encoder_layers (ETSFormer_init layers k emb fresh) ! nat ind =
     \<lparr>freq_attn = \<lparr>K = k\<rparr>,
      mhes_attn = fresh_mhesa (fresh ind),
      attn_post_ln = fresh_ln (fresh ind),
      ff_block = Some (fresh_ffb (fresh ind)),
      level = fresh_level (fresh ind)\<rparr>"
proof -
  have n: "[0..layers - 1] ! nat ind = ind"
    using assms by (subst nth_upto) simp_all
  have l: "nat ind < length [0..layers - 1]"
    using assms by simp
  show ?thesis
    using assms by (simp add: ETSFormer_init_def nth_map [OF l] n is_last_layer_def)
qed

lemma encoder_loop_append:
  "encoder_loop (ls @ [l]) xz = (case encoder_loop ls xz of None \<Rightarrow> None | Some xz' \<Rightarrow> encoder_step l xz')"
  by (induction ls arbitrary: xz) (simp_all split: option.splits)

text \<open>C10. The test \<open>(ind - 1) == layers\<close> is false for every index of \<open>range(layers)\<close>, so
  every encoder layer of a constructed model holds a feed-forward block, the last one
  included. The loop of the forward pass runs the step of every layer, the last included,
  and the step of the layer of index \<open>ind\<close> of a constructed model applies the feed-forward
  block of that layer to the normalised latent: the branch without a block is never
  taken.\<close>

theorem feed_forward_block_in_every_layer:
  "list_all (\<lambda>ind. \<not> is_last_layer ind layers) [0..layers - 1]
   \<and> list_all (\<lambda>l. exists (ff_block l)) (encoder_layers (ETSFormer_init layers k emb fresh))
   \<and> length (encoder_layers (ETSFormer_init layers k emb fresh)) = nat layers
   \<and> (1 \<le> layers \<longrightarrow>
        ff_block (last (encoder_layers (ETSFormer_init layers k emb fresh)))
          = Some (fresh_ffb (fresh (layers - 1))))
   \<and> (0 \<le> ind \<and> ind < layers \<longrightarrow>
        encoder_step (encoder_layers (ETSFormer_init layers k emb fresh) ! nat ind) (x, z) =
          do {
            latent_seasonal \<leftarrow> FrequencyAttention_forward \<lparr>K = k\<rparr> z;
            z1 \<leftarrow> msub z latent_seasonal;
            latent_growth \<leftarrow> MHESA_forward (fresh_mhesa (fresh ind)) z1 False;
            z2 \<leftarrow> msub z1 latent_growth;
            x' \<leftarrow> Level_forward (fresh_level (fresh ind)) x latent_seasonal latent_growth;
            Some (x', FeedForwardBlock_forward (fresh_ffb (fresh ind))
                        (map (LayerNorm_forward (fresh_ln (fresh ind))) z2))
          })
   \<and> encoder_loop [] (x, z) = Some (x, z)
   \<and> encoder_loop (ls @ [l]) (x, z) =
        (case encoder_loop ls (x, z) of None \<Rightarrow> None | Some xz' \<Rightarrow> encoder_step l xz')
   \<and> ETSFormer_forward (ETSFormer_init layers k emb fresh) x steps =
        do {
          z0 \<leftarrow> InputEmbedding emb x;
          (x', z') \<leftarrow> encoder_loop (encoder_layers (ETSFormer_init layers k emb fresh)) (x, z0);
          LevelStack_forward x' steps
        }"
proof -
  have "list_all (\<lambda>ind. \<not> is_last_layer ind layers) [0..layers - 1]"
    by (simp add: list_all_iff is_last_layer_def)
  moreover have "list_all (\<lambda>l. exists (ff_block l)) (encoder_layers (ETSFormer_init layers k emb fresh))"
    by (simp add: ETSFormer_init_def list_all_iff exists_def is_last_layer_def)
  moreover have "length (encoder_layers (ETSFormer_init layers k emb fresh)) = nat layers"
    by (simp add: ETSFormer_init_def)
  moreover have "ff_block (last (encoder_layers (ETSFormer_init layers k emb fresh)))
          = Some (fresh_ffb (fresh (layers - 1)))" if "1 \<le> layers"
  proof -
    have u: "[0..layers - 1] = [0..layers - 1 - 1] @ [layers - 1]"
      using that by (intro upto_rec2) simp
    show ?thesis
      by (subst ETSFormer_init_def, subst u) (simp add: is_last_layer_def)
  qed
  moreover have "encoder_step (encoder_layers (ETSFormer_init layers k emb fresh) ! nat ind) (x, z) =
          do {
            latent_seasonal \<leftarrow> FrequencyAttention_forward \<lparr>K = k\<rparr> z;
            z1 \<leftarrow> msub z latent_seasonal;
            latent_growth \<leftarrow> MHESA_forward (fresh_mhesa (fresh ind)) z1 False;
            z2 \<leftarrow> msub z1 latent_growth;
            x' \<leftarrow> Level_forward (fresh_level (fresh ind)) x latent_seasonal latent_growth;
            Some (x', FeedForwardBlock_forward (fresh_ffb (fresh ind))
                        (map (LayerNorm_forward (fresh_ln (fresh ind))) z2))
          }" if "0 \<le> ind \<and> ind < layers"
    using that by (simp add: ETSFormer_init_nth encoder_step_def Let_def)
  moreover have "encoder_loop [] (x, z) = Some (x, z)" by simp
  moreover have "encoder_loop (ls @ [l]) (x, z) =
        (case encoder_loop ls (x, z) of None \<Rightarrow> None | Some xz' \<Rightarrow> encoder_step l xz')"
    by (rule encoder_loop_append)
  moreover have "ETSFormer_forward (ETSFormer_init layers k emb fresh) x steps =
        do {
          z0 \<leftarrow> InputEmbedding emb x;
          (x', z') \<leftarrow> encoder_loop (encoder_layers (ETSFormer_init layers k emb fresh)) (x, z0);
          LevelStack_forward x' steps
        }"
    by (simp add: ETSFormer_forward_def ETSFormer_init_def)
  ultimately show ?thesis by blast
qed

theorem feed_forward_block_in_every_layer_witness:
  "(1::int) \<le> 2 \<and> (0::int) \<le> 1 \<and> (1::int) < 2
   \<and> list_all (\<lambda>l. exists (ff_block l))
        (encoder_layers (ETSFormer_init 2 1 example_conv (\<lambda>ind. example_params)))
   \<and> ff_block (last (encoder_layers (ETSFormer_init 2 1 example_conv (\<lambda>ind. example_params))))
       = Some (fresh_ffb example_params)
   \<and> encoder_step (encoder_layers (ETSFormer_init 2 1 example_conv (\<lambda>ind. example_params)) ! nat 1)
        ([[1], [2]], [[3], [4]]) =
       do {
         latent_seasonal \<leftarrow> FrequencyAttention_forward \<lparr>K = 1\<rparr> [[3], [4]];
         z1 \<leftarrow> msub [[3], [4]] latent_seasonal;
         latent_growth \<leftarrow> MHESA_forward (fresh_mhesa example_params) z1 False;
         z2 \<leftarrow> msub z1 latent_growth;
         x' \<leftarrow> Level_forward (fresh_level example_params) [[1], [2]] latent_seasonal latent_growth;
         Some (x', FeedForwardBlock_forward (fresh_ffb example_params)
                     (map (LayerNorm_forward (fresh_ln example_params)) z2))
       }"
  using feed_forward_block_in_every_layer [of 2 1 example_conv "\<lambda>ind. example_params" 1
      "[[1], [2]]" "[[3], [4]]" "[]" "hd (encoder_layers (example_model 1))" 0]
  by simp

section \<open>Level module\<close>

text \<open>C3. The value returned by \<open>Level_forward\<close> does not depend on its argument
  \<open>latent_growth\<close>: the projected growth latent and the growth smoothing weights are
  computed and then dropped, and the growth term is a second smoothing of the raw signal.\<close>

theorem Level_forward_ignores_latent_growth:
  "Level_forward lv x latent_growth latent_seasonal = Level_forward lv x latent_growth' latent_seasonal
   \<and> Level_forward lv x latent_growth latent_seasonal =
       (case msub x (map (Linear_forward (to_seasonal lv)) latent_seasonal) of
          None \<Rightarrow> None
        | Some residual \<Rightarrow>
            (case conv1d_fft residual (Aes_weights (sigmoid (level_alpha lv)) (length x)) of
               None \<Rightarrow> None
             | Some seasonal_normalized_term \<Rightarrow>
                 (case conv1d_fft x (Aes_weights (sigmoid (level_alpha lv)) (length x)) of
                    None \<Rightarrow> None
                  | Some growth_term \<Rightarrow> madd seasonal_normalized_term growth_term)))"
  by (simp add: Level_forward_def Let_def split: option.splits)

section \<open>The gather path of the smoothing attention\<close>

lemma naive_Aes_indices_nth:
  "t < n \<Longrightarrow> s < n \<Longrightarrow> naive_Aes_indices n ! t ! s = nat ((int s - int t - 1) mod int n)"
  by (simp add: naive_Aes_indices_def algebra_simps)

lemma gathered_nth:
  "t < n \<Longrightarrow> s < n \<Longrightarrow> map (gather w) (naive_Aes_indices n) ! t ! s = w ! nat ((int s - int t - 1) mod int n)"
  by (simp add: naive_Aes_indices_def gather_def algebra_simps)

lemma causal_index: "s \<le> t \<Longrightarrow> t < n \<Longrightarrow> nat ((int s - int t - 1) mod int n) = n - 1 - (t - s)"
proof -
  assume a: "s \<le> t" "t < n"
  have "(int s - int t - 1) mod int n = (int s - int t - 1 + int n) mod int n" by simp
  also have "\<dots> = int s - int t - 1 + int n" using a by (intro mod_pos_pos_trivial) auto
  finally show ?thesis using a by (simp add: nat_eq_iff)
qed

lemma Dropout_forward_inactive:
  "\<not> (training d \<and> 0 < drop_p d) \<Longrightarrow> Dropout_forward d pos v = v"
  by (auto simp: Dropout_forward_def)

lemma naive_Aes_weights_nth:
  "t < n \<Longrightarrow> s < n \<Longrightarrow>
   naive_Aes_weights d h n w ! t ! s
     = (if s \<le> t then Dropout_forward d [h, t, s] (w ! (n - 1 - (t - s))) else 0)"
proof -
  assume a: "t < n" "s < n"
  have "naive_Aes_weights d h n w ! t ! s
      = (if s \<le> t then Dropout_forward d [h, t, s] (map (gather w) (naive_Aes_indices n) ! t ! s) else 0)"
    using a by (simp add: naive_Aes_weights_def tril_def dropout_weights_def naive_Aes_indices_def gather_def)
  then show ?thesis
    using a by (simp add: gathered_nth causal_index)
qed

lemma naive_Aes_head_nth:
  "t < length x \<Longrightarrow> c < ncols x \<Longrightarrow>
   naive_Aes_head d h x w ! t ! c
     = (\<Sum>l\<le>t. x ! l ! c * Dropout_forward d [h, t, l] (w ! (length x - 1 - (t - l))))"
proof -
  assume a: "t < length x" "c < ncols x"
  let ?n = "length x"
  have "naive_Aes_head d h x w ! t ! c = (\<Sum>l<?n. x ! l ! c * naive_Aes_weights d h ?n w ! t ! l)"
    using a by (simp add: naive_Aes_head_def Let_def)
  also have "\<dots> = (\<Sum>l<?n. if l \<le> t
        then x ! l ! c * Dropout_forward d [h, t, l] (w ! (?n - 1 - (t - l))) else 0)"
    using a by (intro sum.cong) (simp_all add: naive_Aes_weights_nth)
  also have "\<dots> = (\<Sum>l\<le>t. x ! l ! c * Dropout_forward d [h, t, l] (w ! (?n - 1 - (t - l))))"
    by (rule sum.mono_neutral_cong_right) (use a in auto)
  finally show ?thesis .
qed

lemma naive_Aes_head_causal:
  assumes "t < length x" "length x' = length x" "take (Suc t) x' = take (Suc t) x"
  shows "naive_Aes_head d h x' w ! t = naive_Aes_head d h x w ! t"
proof -
  let ?n = "length x"
  have eq: "x' ! l = x ! l" if "l \<le> t" for l
  proof -
    have "take (Suc t) x' ! l = take (Suc t) x ! l" using assms(3) by simp
    then show ?thesis using that by simp
  qed
  have "x \<noteq> []" "x' \<noteq> []" using assms by auto
  then have "ncols x' = length (x' ! 0)" "ncols x = length (x ! 0)"
    by (simp_all add: ncols_def nth_Cons_0 split: list.splits)
  then have nc: "ncols x' = ncols x" using eq [of 0] by simp
  have "(\<Sum>l<?n. x' ! l ! c * naive_Aes_weights d h ?n w ! t ! l)
      = (\<Sum>l<?n. x ! l ! c * naive_Aes_weights d h ?n w ! t ! l)" for c
    using assms(1) by (intro sum.cong) (auto simp: naive_Aes_weights_nth eq)
  then show ?thesis
    using assms by (simp add: naive_Aes_head_def Let_def nc)
qed

text \<open>C8 (as amended). In the gather path the entry of the gathered weight matrix at row
  \<open>t\<close> (the output time) and column \<open>s\<close> (the input time) is the kernel entry at index
  \<open>(s - t - 1) mod n\<close>; the lower triangle keeps the entries with \<open>s \<le> t\<close> (the kernel entry
  after dropout, which is the kernel entry itself when dropout is inactive) and zeroes the
  others, so the output at time \<open>t\<close> depends only on the inputs at times up to \<open>t\<close>, whatever
  the dropout.\<close>

theorem naive_Aes_gather_and_mask:
  assumes "t < n" "s < n" "length x = n" "length x' = n" "take (Suc t) x' = take (Suc t) x"
  shows "map (gather w) (naive_Aes_indices n) ! t ! s = w ! nat ((int s - int t - 1) mod int n)
    \<and> naive_Aes_weights d h n w ! t ! s
        = (if s \<le> t then Dropout_forward d [h, t, s] (w ! nat ((int s - int t - 1) mod int n)) else 0)
    \<and> (\<not> (training d \<and> 0 < drop_p d) \<longrightarrow>
         naive_Aes_weights d h n w ! t ! s
           = (if s \<le> t then w ! nat ((int s - int t - 1) mod int n) else 0))
    \<and> naive_Aes_head d h x' w ! t = naive_Aes_head d h x w ! t"
  using assms gathered_nth [of t n s w] naive_Aes_weights_nth [of t n s d h w] causal_index [of s t n]
    naive_Aes_head_causal [of t x x' d h w] Dropout_forward_inactive [of d]
  by simp

theorem naive_Aes_gather_and_mask_witness:
  "(1::nat) < 3 \<and> (0::nat) < 3
    \<and> map (gather [10, 20, 30::real]) (naive_Aes_indices 3) ! 1 ! 0 = [10, 20, 30] ! nat ((int 0 - int 1 - 1) mod int 3)
    \<and> naive_Aes_weights example_dropout 0 3 [10, 20, 30] ! 1 ! 0 = 20
    \<and> naive_Aes_head example_dropout 0 [[1], [2], [7]] [10, 20, 30] ! 1
        = naive_Aes_head example_dropout 0 [[1], [2], [3]] [10, 20, 30] ! 1"
  using naive_Aes_gather_and_mask [of 1 3 0 "[[1], [2], [3]]" "[[1], [2], [7]]" "[10, 20, 30]" example_dropout 0]
  by (simp add: example_dropout_def)

text \<open>C8 as stated fails: for \<open>n = 3\<close>, row \<open>t = 1\<close> and column \<open>s = 0\<close> the gathered entry
  is the kernel entry at index 1, not the one at index \<open>(t - s - 1) mod n = 0\<close>.\<close>

theorem naive_Aes_gather_counterexample:
  "map (gather [10, 20, 30::real]) (naive_Aes_indices 3) ! 1 ! 0 \<noteq> [10, 20, 30] ! nat ((1 - 0 - 1) mod 3)"
  by (simp add: naive_Aes_indices_def gather_def upt_rec numeral_nat)

section \<open>The transforms compute a circular correlation\<close>

lemma cis_unity_sum:
  fixes m :: int
  assumes "0 < n"
  shows "(\<Sum>f<n. cis (2 * pi * real f * real_of_int m / real n)) = (if int n dvd m then of_nat n else 0)"
proof -
  define w where "w = cis (2 * pi * real_of_int m / real n)"
  have pw: "cis (2 * pi * real f * real_of_int m / real n) = w ^ f" for f
    by (simp add: w_def DeMoivre algebra_simps)
  show ?thesis
  proof (cases "int n dvd m")
    case True
    then obtain q where "m = int n * q" ..
    then have "2 * pi * real_of_int m / real n = 2 * pi * of_int q"
      using assms by simp
    then have "w = cis (2 * pi * of_int q)" by (simp only: w_def)
    also have "\<dots> = 1" by (rule cis_multiple_2pi) simp
    finally have "w = 1" .
    then show ?thesis using True by (simp add: pw)
  next
    case False
    have "w ^ n = cis (2 * pi * of_int m)"
      using assms by (simp add: w_def DeMoivre)
    also have "\<dots> = 1" by (rule cis_multiple_2pi) simp
    finally have wn: "w ^ n = 1" .
    have "w \<noteq> 1"
    proof
      assume "w = 1"
      then have "cos (2 * pi * real_of_int m / real n) = 1"
        by (simp add: w_def complex_eq_iff)
      then obtain k :: int where k: "2 * pi * real_of_int m / real n = of_int k * 2 * pi"
        using cos_one_2pi_int by blast
      then have "real_of_int m = real_of_int k * real n"
        using assms by (simp add: field_simps)
      then have "m = k * int n"
        by (metis of_int_eq_iff of_int_mult of_int_of_nat_eq)
      then show False using False by simp
    qed
    then have "(\<Sum>f<n. w ^ f) = (w ^ n - 1) / (w - 1)"
      by (rule geometric_sum)
    then show ?thesis using False wn by (simp add: pw)
  qed
qed

lemma dvd_shift_iff:
  assumes "a < L"
  shows "int L dvd (int b + int t - int a) \<longleftrightarrow> a = (b + t) mod L"
proof
  assume "int L dvd (int b + int t - int a)"
  then have "(int b + int t) mod int L = int a mod int L"
    by (simp add: mod_eq_dvd_iff)
  then have "int ((b + t) mod L) = int (a mod L)"
    by (simp add: zmod_int)
  then show "a = (b + t) mod L" using assms by simp
next
  assume "a = (b + t) mod L"
  then have "int b + int t - int a = int L * int ((b + t) div L)"
    by (simp add: zmod_int zdiv_int minus_mod_eq_mult_div)
  then show "int L dvd (int b + int t - int a)" by simp
qed

lemma dft_correlation:
  fixes x w :: "nat \<Rightarrow> real"
  assumes "0 < L"
  shows "(\<Sum>k<L. (\<Sum>a<L. complex_of_real (x a) * cis (- (2 * pi * real a * real k / real L)))
              * cnj (\<Sum>b<L. complex_of_real (w b) * cis (- (2 * pi * real b * real k / real L)))
              * cis (2 * pi * real t * real k / real L))
       = of_nat L * (\<Sum>b<L. complex_of_real (w b * x ((b + t) mod L)))"
proof -
  let ?F = "\<lambda>k a b. complex_of_real (x a * w b) * cis (2 * pi * real k * real_of_int (int b + int t - int a) / real L)"
  have tm: "complex_of_real (x a) * cis (- (2 * pi * real a * real k / real L))
        * cnj (complex_of_real (w b) * cis (- (2 * pi * real b * real k / real L)))
        * cis (2 * pi * real t * real k / real L) = ?F k a b" for k a b
  proof -
    have "- (2 * pi * real a * real k / real L) + (2 * pi * real b * real k / real L)
            + 2 * pi * real t * real k / real L
          = 2 * pi * real k * real_of_int (int b + int t - int a) / real L"
      by (simp add: algebra_simps add_divide_distrib diff_divide_distrib)
    then have "cis (- (2 * pi * real a * real k / real L)) * cis (2 * pi * real b * real k / real L)
            * cis (2 * pi * real t * real k / real L)
          = cis (2 * pi * real k * real_of_int (int b + int t - int a) / real L)"
      by (simp only: cis_mult)
    then show ?thesis
      by (simp add: cis_cnj [symmetric] mult_ac)
  qed
  have "(\<Sum>k<L. (\<Sum>a<L. complex_of_real (x a) * cis (- (2 * pi * real a * real k / real L)))
              * cnj (\<Sum>b<L. complex_of_real (w b) * cis (- (2 * pi * real b * real k / real L)))
              * cis (2 * pi * real t * real k / real L))
      = (\<Sum>k<L. \<Sum>a<L. \<Sum>b<L. ?F k a b)"
  proof -
    have step: "(\<Sum>a<L. A a) * cnj (\<Sum>b<L. B b) * c = (\<Sum>a<L. \<Sum>b<L. A a * cnj (B b) * c)"
      for A B :: "nat \<Rightarrow> complex" and c
    proof -
      have "(\<Sum>a<L. A a) * cnj (\<Sum>b<L. B b) = (\<Sum>a<L. \<Sum>b<L. A a * cnj (B b))"
        by (simp only: cnj_sum sum_product)
      then show ?thesis by (simp only: sum_distrib_right)
    qed
    show ?thesis by (simp only: step tm)
  qed
  also have "\<dots> = (\<Sum>a<L. \<Sum>b<L. \<Sum>k<L. ?F k a b)"
    by (subst sum.swap, rule sum.cong [OF refl], rule sum.swap)
  also have "\<dots> = (\<Sum>a<L. \<Sum>b<L. complex_of_real (x a * w b) *
                 (if int L dvd (int b + int t - int a) then of_nat L else 0))"
    using assms by (simp only: sum_distrib_left [symmetric] cis_unity_sum)
  also have "\<dots> = (\<Sum>b<L. \<Sum>a<L. if a = (b + t) mod L then of_nat L * complex_of_real (w b * x a) else 0)"
    by (subst sum.swap, intro sum.cong refl) (simp add: dvd_shift_iff)
  also have "\<dots> = (\<Sum>b<L. of_nat L * complex_of_real (w b * x ((b + t) mod L)))"
    using assms by (intro sum.cong refl) (simp add: sum.delta')
  finally show ?thesis by (simp only: sum_distrib_left)
qed

lemma length_pad_to [simp]: "length (pad_to n xs) = n"
  by (simp add: pad_to_def)

lemma pad_to_nth: "j < n \<Longrightarrow> pad_to n xs ! j = (if j < length xs then xs ! j else 0)"
  by (simp add: pad_to_def nth_append)

lemma pad_to_same: "length xs = n \<Longrightarrow> pad_to n xs = xs"
  by (simp add: pad_to_def)

lemma length_rfft [simp]: "length (rfft n x) = n div 2 + 1"
  by (simp add: rfft_def Let_def)

lemma length_irfft [simp]: "length (irfft n f) = n"
  by (simp add: irfft_def Let_def)

lemma map_upt0_nth: "i < n \<Longrightarrow> map f [0..<n] ! i = f i"
  by simp

lemma rfft_nth: "k \<le> n div 2 \<Longrightarrow> rfft n x ! k = dft n (\<lambda>j. pad_to n x ! j) k"
  unfolding rfft_def Let_def by (subst nth_map_upt) simp_all

lemma dft_cnj:
  assumes "0 < n" "k \<le> n"
  shows "cnj (dft n x (n - k)) = dft n x k"
proof -
  have "cnj (cis (- (2 * pi * real j * real (n - k) / real n))) = cis (- (2 * pi * real j * real k / real n))" for j
  proof -
    have "2 * pi * real j * real (n - k) / real n = 2 * pi * real j - 2 * pi * real j * real k / real n"
      using assms by (simp add: of_nat_diff field_simps)
    then have "cnj (cis (- (2 * pi * real j * real (n - k) / real n)))
        = cis (2 * pi * real j - 2 * pi * real j * real k / real n)"
      by (simp add: cis_cnj)
    also have "\<dots> = cis (2 * pi * real j) / cis (2 * pi * real j * real k / real n)"
      by (simp only: cis_divide)
    also have "cis (2 * pi * real j) = 1"
      by (rule cis_multiple_2pi) simp
    finally have "cnj (cis (- (2 * pi * real j * real (n - k) / real n)))
        = 1 / cis (2 * pi * real j * real k / real n)" .
    also have "\<dots> = cis (- (2 * pi * real j * real k / real n))"
      by (simp only: cis_inverse [symmetric] inverse_eq_divide)
    finally show ?thesis .
  qed
  then show ?thesis
    by (simp add: dft_def)
qed

lemma hermitian_ext_product:
  assumes "0 < n" "k < n"
  shows "hermitian_ext n (pad_to (n div 2 + 1) (map2 (\<lambda>a b. a * cnj b) (rfft n x) (rfft n w))) k
       = dft n (\<lambda>j. pad_to n x ! j) k * cnj (dft n (\<lambda>j. pad_to n w ! j) k)"
proof -
  let ?p = "map2 (\<lambda>a b. a * cnj b) (rfft n x) (rfft n w)"
  have p: "pad_to (n div 2 + 1) ?p = ?p" by (rule pad_to_same) simp
  have nth: "?p ! i = dft n (\<lambda>j. pad_to n x ! j) i * cnj (dft n (\<lambda>j. pad_to n w ! j) i)"
    if "i \<le> n div 2" for i
  proof -
    have "?p ! i = rfft n x ! i * cnj (rfft n w ! i)" using that by simp
    then show ?thesis by (simp only: rfft_nth [OF that])
  qed
  show ?thesis
  proof (cases "k \<le> n div 2")
    case True
    then show ?thesis by (simp only: hermitian_ext_def p if_True nth [OF True])
  next
    case False
    then have le: "n - k \<le> n div 2" by linarith
    have "hermitian_ext n ?p k = cnj (?p ! (n - k))"
      using False by (simp add: hermitian_ext_def)
    also have "\<dots> = cnj (dft n (\<lambda>j. pad_to n x ! j) (n - k)) * dft n (\<lambda>j. pad_to n w ! j) (n - k)"
      by (simp add: nth [OF le])
    also have "\<dots> = dft n (\<lambda>j. pad_to n x ! j) k * cnj (dft n (\<lambda>j. pad_to n w ! j) k)"
      using assms by (simp add: dft_cnj [symmetric, of n k])
    finally show ?thesis by (simp only: p)
  qed
qed

lemma irfft_correlation:
  assumes "0 < n" "t < n"
  shows "irfft n (map2 (\<lambda>a b. a * cnj b) (rfft n x) (rfft n w)) ! t
       = (\<Sum>b<n. pad_to n w ! b * pad_to n x ! ((b + t) mod n))"
proof -
  let ?x = "\<lambda>j. pad_to n x ! j" and ?w = "\<lambda>j. pad_to n w ! j"
  have "(\<Sum>k<n. hermitian_ext n (pad_to (n div 2 + 1) (map2 (\<lambda>a b. a * cnj b) (rfft n x) (rfft n w))) k
            * cis (2 * pi * real t * real k / real n))
      = (\<Sum>k<n. dft n ?x k * cnj (dft n ?w k) * cis (2 * pi * real t * real k / real n))"
    using assms by (intro sum.cong refl) (simp only: hermitian_ext_product lessThan_iff)
  also have "\<dots> = of_nat n * (\<Sum>b<n. complex_of_real (?w b * ?x ((b + t) mod n)))"
    unfolding dft_def using assms(1) by (rule dft_correlation)
  also have "\<dots> = complex_of_real (real n * (\<Sum>b<n. ?w b * ?x ((b + t) mod n)))"
    by simp
  finally have E: "(\<Sum>k<n. hermitian_ext n (pad_to (n div 2 + 1) (map2 (\<lambda>a b. a * cnj b) (rfft n x) (rfft n w))) k
            * cis (2 * pi * real t * real k / real n))
      = complex_of_real (real n * (\<Sum>b<n. ?w b * ?x ((b + t) mod n)))" .
  have "irfft n (map2 (\<lambda>a b. a * cnj b) (rfft n x) (rfft n w)) ! t
      = Re (\<Sum>k<n. hermitian_ext n (pad_to (n div 2 + 1) (map2 (\<lambda>a b. a * cnj b) (rfft n x) (rfft n w))) k
            * cis (2 * pi * real t * real k / real n)) / real n"
    unfolding irfft_def Let_def by (simp only: map_upt0_nth [OF assms(2)])
  also have "\<dots> = (\<Sum>b<n. ?w b * ?x ((b + t) mod n))"
    using assms(1) by (simp only: E Re_complex_of_real) simp
  finally show ?thesis .
qed

lemma next_fast_len_ge: "target \<le> next_fast_len target"
proof (cases "find smooth5 [target..<2 * target]")
  case None
  then show ?thesis by (simp add: next_fast_len_def)
next
  case (Some m)
  then have "m \<in> set [target..<2 * target]"
    by (auto simp: find_Some_iff in_set_conv_nth simp del: set_upt)
  then show ?thesis using Some by (simp add: next_fast_len_def)
qed

lemma conv1d_fft_channel_SomeD:
  assumes "conv1d_fft_channel x w = Some ys"
  defines "L \<equiv> next_fast_len (length x + length w - 1)"
  shows "0 < L" "length x \<le> L"
    "ys = map (\<lambda>i. rotate 1 (irfft L (map2 (\<lambda>a b. a * cnj b) (rfft L x) (rfft L w))) ! i) [L - length x..<L]"
proof -
  have g: "\<not> (L = 0 \<or> L < length x)"
    using assms(1) unfolding conv1d_fft_channel_def Let_def L_def by (auto split: if_splits)
  then show "0 < L" "length x \<le> L" by auto
  show "ys = map (\<lambda>i. rotate 1 (irfft L (map2 (\<lambda>a b. a * cnj b) (rfft L x) (rfft L w))) ! i) [L - length x..<L]"
    using assms(1) g unfolding conv1d_fft_channel_def Let_def L_def by (auto split: if_splits)
qed

lemma conv1d_fft_channel_defined:
  assumes "0 < length w" "x \<noteq> []"
  shows "\<exists>ys. conv1d_fft_channel x w = Some ys"
proof -
  define L where "L = next_fast_len (length x + length w - 1)"
  have "length x + length w - 1 \<le> L"
    unfolding L_def by (rule next_fast_len_ge)
  moreover have "0 < length x" using assms(2) by simp
  ultimately have "\<not> (L = 0 \<or> L < length x)"
    using assms(1) by linarith
  then show ?thesis
    unfolding conv1d_fft_channel_def Let_def L_def by simp
qed

lemma length_conv1d_fft_channel:
  "conv1d_fft_channel x w = Some ys \<Longrightarrow> length ys = length x"
  using conv1d_fft_channel_SomeD [of x w ys] by simp

lemma conv1d_fft_channel_nth:
  assumes "conv1d_fft_channel x w = Some ys" "t < length x"
  defines "L \<equiv> next_fast_len (length x + length w - 1)"
  shows "ys ! t = (\<Sum>b<L. pad_to L w ! b * pad_to L x ! ((b + (L - length x + t + 1)) mod L))"
proof -
  let ?out = "irfft L (map2 (\<lambda>a b. a * cnj b) (rfft L x) (rfft L w))"
  have L0: "0 < L" and LN: "length x \<le> L"
    and ys: "ys = map (\<lambda>i. rotate 1 ?out ! i) [L - length x..<L]"
    using conv1d_fft_channel_SomeD [OF assms(1)] unfolding L_def by simp_all
  have i: "L - length x + t < L" using LN assms(2) by simp
  have "ys ! t = rotate 1 ?out ! (L - length x + t)"
    unfolding ys using assms(2) LN by simp
  also have "\<dots> = ?out ! ((1 + (L - length x + t)) mod L)"
    using i by (simp add: nth_rotate1)
  also have "\<dots> = (\<Sum>b<L. pad_to L w ! b * pad_to L x ! ((b + (1 + (L - length x + t)) mod L) mod L))"
    using L0 by (intro irfft_correlation) simp_all
  also have "\<dots> = (\<Sum>b<L. pad_to L w ! b * pad_to L x ! ((b + (L - length x + t + 1)) mod L))"
    by (simp add: mod_add_right_eq add_ac)
  finally show ?thesis .
qed

lemma conv1d_fft_channel_causal:
  assumes "length w = length x" "conv1d_fft_channel x w = Some ys" "t < length x"
  shows "ys ! t = (\<Sum>s\<le>t. x ! s * w ! (length x - 1 - (t - s)))"
proof -
  define N where "N = length x"
  define L where "L = next_fast_len (length x + length w - 1)"
  have N: "t < N" "length w = N" "length x = N" using assms by (simp_all add: N_def)
  have "length x + length w - 1 \<le> L"
    unfolding L_def by (rule next_fast_len_ge)
  then have LN: "2 * N - 1 \<le> L"
    using N by linarith
  let ?g = "\<lambda>b. pad_to L w ! b * pad_to L x ! ((b + (L - N + t + 1)) mod L)"
  have "ys ! t = (\<Sum>b<L. ?g b)"
    using conv1d_fft_channel_nth [OF assms(2,3)] N by (simp add: L_def)
  also have "\<dots> = (\<Sum>b\<in>{N - 1 - t..N - 1}. ?g b)"
  proof (rule sum.mono_neutral_right)
    show "finite {..<L}" by simp
    show "{N - 1 - t..N - 1} \<subseteq> {..<L}" using LN N by auto
    show "\<forall>b\<in>{..<L} - {N - 1 - t..N - 1}. ?g b = 0"
    proof
      fix b assume b: "b \<in> {..<L} - {N - 1 - t..N - 1}"
      show "?g b = 0"
      proof (cases "b < N - 1 - t")
        case True
        define i where "i = b + (L - N + t + 1)"
        have lt: "i < L" using True LN N unfolding i_def by linarith
        have "N \<le> i" using LN N True unfolding i_def by linarith
        then have z: "pad_to L x ! i = 0"
          using lt N by (simp add: pad_to_nth)
        have m: "(b + (L - N + t + 1)) mod L = i"
          unfolding i_def [symmetric] using lt by simp
        show ?thesis unfolding m z by simp
      next
        case False
        then have "N \<le> b" using b by auto
        then have "pad_to L w ! b = 0" using b N by (simp add: pad_to_nth)
        then show ?thesis by simp
      qed
    qed
  qed
  also have "\<dots> = (\<Sum>s\<le>t. ?g (N - 1 - (t - s)))"
  proof (rule sum.reindex_bij_witness [of _ "\<lambda>s. N - 1 - (t - s)" "\<lambda>b. b + t + 1 - N"])
    fix a assume a: "a \<in> {N - 1 - t..N - 1}"
    then show r: "N - 1 - (t - (a + t + 1 - N)) = a" using N by auto
    show "a + t + 1 - N \<in> {..t}" using a N by auto
    show "?g (N - 1 - (t - (a + t + 1 - N))) = ?g a" by (simp only: r)
  next
    fix s assume s: "s \<in> {..t}"
    then show "N - 1 - (t - s) + t + 1 - N = s" using N by auto
    show "N - 1 - (t - s) \<in> {N - 1 - t..N - 1}" using N s by auto
  qed
  also have "\<dots> = (\<Sum>s\<le>t. x ! s * w ! (N - 1 - (t - s)))"
  proof (intro sum.cong refl)
    fix s assume "s \<in> {..t}"
    then have s: "s \<le> t" by simp
    have "N - 1 - (t - s) + (L - N + t + 1) = s + L" using s N LN by linarith
    then have "(N - 1 - (t - s) + (L - N + t + 1)) mod L = s"
      using s N LN by simp
    moreover have "pad_to L x ! s = x ! s" using s N LN by (simp add: pad_to_nth)
    moreover have "pad_to L w ! (N - 1 - (t - s)) = w ! (N - 1 - (t - s))"
    proof -
      have "N - 1 - (t - s) < N" "N - 1 - (t - s) < L" using s N LN by linarith+
      then show ?thesis using N pad_to_nth [of "N - 1 - (t - s)" L w] by simp
    qed
    ultimately show "?g (N - 1 - (t - s)) = x ! s * w ! (N - 1 - (t - s))" by simp
  qed
  finally show ?thesis by (simp add: N_def)
qed

section \<open>Convolution by transform is the causal convolution\<close>

lemma sum_list_upt_Suc: "sum_list (map f [0..<Suc t]) = (\<Sum>s\<le>t. f s)"
  by (simp add: sum_list_sum_nth lessThan_Suc_atMost atLeast0LessThan del: upt_Suc)

lemma direct_causal_convolution_nth:
  assumes "length w = length x" "t < length x"
  shows "direct_causal_convolution x w ! t = (\<Sum>s\<le>t. x ! s * w ! (length x - 1 - (t - s)))"
proof -
  have "direct_causal_convolution x w ! t
      = (\<Sum>s\<le>t. if t - s < length w then x ! s * w ! (length w - 1 - (t - s)) else 0)"
    unfolding direct_causal_convolution_def using assms(2)
    by (simp only: map_upt0_nth sum_list_upt_Suc)
  also have "\<dots> = (\<Sum>s\<le>t. x ! s * w ! (length x - 1 - (t - s)))"
    using assms by (intro sum.cong refl) auto
  finally show ?thesis .
qed

lemma conv1d_fft_channel_eq_direct:
  assumes "length w = length x" "x \<noteq> []"
  shows "conv1d_fft_channel x w = Some (direct_causal_convolution x w)"
proof -
  from assms have "0 < length w" by simp
  then obtain ys where ys: "conv1d_fft_channel x w = Some ys"
    using conv1d_fft_channel_defined [of w x] assms(2) by blast
  have "ys = direct_causal_convolution x w"
  proof (rule nth_equalityI)
    show "length ys = length (direct_causal_convolution x w)"
      using length_conv1d_fft_channel [OF ys] by (simp add: direct_causal_convolution_def)
  next
    fix t assume "t < length ys"
    then have t: "t < length x" using length_conv1d_fft_channel [OF ys] by simp
    show "ys ! t = direct_causal_convolution x w ! t"
      using conv1d_fft_channel_causal [OF assms(1) ys t] direct_causal_convolution_nth [OF assms(1) t]
      by simp
  qed
  then show ?thesis using ys by simp
qed

lemma those_map_Some:
  assumes "\<And>x. x \<in> set xs \<Longrightarrow> f x = Some (g x)"
  shows "those (map f xs) = Some (map g xs)"
  using assms by (induction xs) simp_all

lemma conv1d_fft_guard:
  assumes "length w = length x" "x \<noteq> []"
  shows "\<not> (next_fast_len (length x + length w - 1) = 0
            \<or> next_fast_len (length x + length w - 1) < length x)"
proof -
  have "length x + length w - 1 \<le> next_fast_len (length x + length w - 1)"
    by (rule next_fast_len_ge)
  moreover have "0 < length x" using assms(2) by simp
  ultimately show ?thesis using assms(1) by linarith
qed

lemma conv1d_fft_eq_direct:
  assumes "length w = length x" "x \<noteq> []"
  shows "conv1d_fft x w = Some (from_columns (length x)
           (map (\<lambda>c. direct_causal_convolution (column c x) w) [0..<ncols x]))"
proof -
  have "conv1d_fft_channel (column c x) w = Some (direct_causal_convolution (column c x) w)" for c
    using assms by (intro conv1d_fft_channel_eq_direct) (simp_all add: column_def)
  then have "those (map (\<lambda>c. conv1d_fft_channel (column c x) w) [0..<ncols x])
      = Some (map (\<lambda>c. direct_causal_convolution (column c x) w) [0..<ncols x])"
    by (intro those_map_Some) simp
  then show ?thesis
    using conv1d_fft_guard [OF assms] by (simp add: conv1d_fft_def Let_def)
qed

lemma conv1d_fft_eq_naive:
  assumes "length w = length x" "x \<noteq> []" "\<not> (training d \<and> 0 < drop_p d)"
  shows "conv1d_fft x w = Some (naive_Aes_head d h x w)"
proof -
  let ?n = "length x"
  let ?cs = "map (\<lambda>c. direct_causal_convolution (column c x) w) [0..<ncols x]"
  have "from_columns ?n ?cs = naive_Aes_head d h x w"
  proof (rule nth_equalityI)
    show "length (from_columns ?n ?cs) = length (naive_Aes_head d h x w)"
      by (simp add: from_columns_def naive_Aes_head_def Let_def)
  next
    fix t assume "t < length (from_columns ?n ?cs)"
    then have t: "t < ?n" by (simp add: from_columns_def)
    have "direct_causal_convolution (column c x) w ! t = naive_Aes_head d h x w ! t ! c"
      if "c < ncols x" for c
    proof -
      have "direct_causal_convolution (column c x) w ! t
          = (\<Sum>s\<le>t. column c x ! s * w ! (length (column c x) - 1 - (t - s)))"
        using assms t by (intro direct_causal_convolution_nth) (simp_all add: column_def)
      also have "\<dots> = (\<Sum>s\<le>t. x ! s ! c * w ! (?n - 1 - (t - s)))"
        using t by (intro sum.cong refl) (simp add: column_def)
      also have "\<dots> = naive_Aes_head d h x w ! t ! c"
        using t that assms(3) by (simp add: naive_Aes_head_nth Dropout_forward_inactive)
      finally show ?thesis .
    qed
    then show "from_columns ?n ?cs ! t = naive_Aes_head d h x w ! t"
      using t by (intro nth_equalityI) (simp_all add: from_columns_def naive_Aes_head_def Let_def)
  qed
  then show ?thesis
    using conv1d_fft_eq_direct [OF assms(1,2)] by simp
qed

lemma next_fast_len_small: "target \<le> 6 \<Longrightarrow> next_fast_len target = target"
  by (simp add: next_fast_len_def)

text \<open>C2 (as amended). For every signal of length \<open>N\<close> and kernel of length \<open>M\<close>,
  \<open>conv1d_fft\<close> chooses a transform length \<open>L\<close> of at least \<open>N + M - 1\<close>; it raises when \<open>L\<close>
  is 0 or less than \<open>N\<close>, and otherwise multiplies the transform of the signal by the
  conjugate of the transform of the kernel, rolls the inverse transform by one step and
  selects the last \<open>N\<close> time indices. When the signal is not empty and the kernel is as long
  as the signal (\<open>M = N \<ge> 1\<close>, as at every call of the repository) the result is the direct
  causal convolution: the output at time \<open>t\<close> is the sum over \<open>s \<le> t\<close> of
  \<open>x[s] * w[N - 1 - (t - s)]\<close>. On the empty signal with the empty kernel it raises.\<close>

theorem conv1d_fft_is_causal_convolution:
  "(let N = length x; M = length w; L = next_fast_len (N + M - 1) in
      N + M - 1 \<le> L
      \<and> conv1d_fft_channel x w =
          (if L = 0 \<or> L < N then None
           else Some (map (\<lambda>i. rotate 1 (irfft L (map2 (\<lambda>a b. a * cnj b) (rfft L x) (rfft L w))) ! i)
                       [L - N..<L])))
   \<and> (length w = length x \<and> x \<noteq> [] \<longrightarrow>
        conv1d_fft_channel x w = Some (direct_causal_convolution x w)
        \<and> (\<forall>t<length x. direct_causal_convolution x w ! t
                          = (\<Sum>s\<le>t. x ! s * w ! (length x - 1 - (t - s)))))
   \<and> (length w = length X \<and> X \<noteq> [] \<longrightarrow>
        conv1d_fft X w = Some (from_columns (length X)
                                (map (\<lambda>c. direct_causal_convolution (column c X) w) [0..<ncols X])))
   \<and> conv1d_fft_channel [] [] = None \<and> conv1d_fft [] [] = None"
proof -
  have "conv1d_fft_channel [] [] = None" "conv1d_fft [] [] = None"
    by (simp_all add: conv1d_fft_channel_def conv1d_fft_def next_fast_len_small)
  then show ?thesis
    using next_fast_len_ge [of "length x + length w - 1"]
      conv1d_fft_channel_eq_direct [of w x] conv1d_fft_eq_direct [of w X]
      direct_causal_convolution_nth [of w x]
    by (simp add: Let_def conv1d_fft_channel_def)
qed

theorem conv1d_fft_is_causal_convolution_witness:
  "length [1::real, 2] = length [3::real, 4] \<and> [3::real, 4] \<noteq> []
   \<and> conv1d_fft_channel [3, 4] [1, 2] = Some [3 * 2, 3 * 1 + 4 * 2]
   \<and> conv1d_fft [[3], [4]] [1, 2] = Some [[3 * 2], [3 * 1 + 4 * 2]]"
  using conv1d_fft_is_causal_convolution [of "[3, 4]" "[1, 2]" "[[3], [4]]"]
  by (simp add: direct_causal_convolution_def from_columns_def column_def ncols_def)

text \<open>C2 as stated fails for a kernel shorter than the signal: with \<open>N = 2\<close> and \<open>M = 1\<close> the
  transform has length 2 and the correlation wraps around, so the output at time 0 is the
  input at time 1 times the weight: the signal \<open>[1, 0]\<close> gives \<open>[0, 1]\<close> where the causal
  convolution is \<open>[1, 0]\<close>, and changing the input at time 1 to 1 changes the output at
  time 0 to 1.\<close>

theorem conv1d_fft_counterexample:
  "conv1d_fft_channel [1, 0] [1] = Some [0, 1]
   \<and> direct_causal_convolution [1, 0] [1] = [1, 0]
   \<and> conv1d_fft_channel [1, 0] [1] \<noteq> Some (direct_causal_convolution [1, 0] [1])
   \<and> conv1d_fft_channel [1, 1] [1] = Some [1, 1]"
proof -
  have L: "next_fast_len (length [1::real, 0] + length [1::real] - 1) = 2"
    "next_fast_len (length [1::real, 1] + length [1::real] - 1) = 2"
    by (simp_all add: next_fast_len_def)
  have two: "{..<2::nat} = {0, 1}" by auto
  obtain ys where ys: "conv1d_fft_channel [1, 0] [1] = Some ys"
    using conv1d_fft_channel_defined [of "[1]" "[1, 0]"] by auto
  obtain zs where zs: "conv1d_fft_channel [1, 1] [1] = Some zs"
    using conv1d_fft_channel_defined [of "[1]" "[1, 1]"] by auto
  have ly: "length ys = 2" "length zs = 2"
    using length_conv1d_fft_channel [OF ys] length_conv1d_fft_channel [OF zs] by simp_all
  have a: "ys ! 0 = 0" "ys ! 1 = 1"
    using conv1d_fft_channel_nth [OF ys, of 0] conv1d_fft_channel_nth [OF ys, of 1] unfolding L
    by (simp_all add: two pad_to_def)
  have b: "zs ! 0 = 1" "zs ! 1 = 1"
    using conv1d_fft_channel_nth [OF zs, of 0] conv1d_fft_channel_nth [OF zs, of 1] unfolding L
    by (simp_all add: two pad_to_def)
  have "ys = [0, 1]"
    using ly a by (intro nth_equalityI) (auto simp: less_Suc_eq numeral_2_eq_2)
  moreover have "zs = [1, 1]"
    using ly b by (intro nth_equalityI) (auto simp: less_Suc_eq numeral_2_eq_2)
  moreover have "direct_causal_convolution [1, 0] [1] = [1, 0]"
    by (simp add: direct_causal_convolution_def)
  ultimately show ?thesis using ys zs by simp
qed

section \<open>The two paths of the smoothing attention\<close>

lemma map2_as_map_upt:
  "map2 f xs ys = map (\<lambda>i. f (xs ! i) (ys ! i)) [0..<min (length xs) (length ys)]"
  by (rule nth_equalityI) simp_all

lemma MHESA_heads_length:
  assumes "xh \<in> set (map (\<lambda>xh. map2 (map2 (-)) (tl xh) (butlast xh))
              (map2 (#) (initial_state m) (split_heads (heads m) (map (Linear_forward (project_in m)) x))))"
  shows "length xh = length x"
proof -
  from assms obtain z where z: "z \<in> set (map2 (#) (initial_state m)
        (split_heads (heads m) (map (Linear_forward (project_in m)) x)))"
    and xh_eq: "xh = map2 (map2 (-)) (tl z) (butlast z)"
    by auto
  from z obtain p where p: "p \<in> set (zip (initial_state m)
        (split_heads (heads m) (map (Linear_forward (project_in m)) x)))"
    and z_eq: "z = fst p # snd p"
    by auto
  have "snd p \<in> set (split_heads (heads m) (map (Linear_forward (project_in m)) x))"
    using set_zip_rightD [of "fst p" "snd p"] p by simp
  then have "length (snd p) = length x" by (auto simp: split_heads_def Let_def)
  then show ?thesis using xh_eq z_eq by (simp del: butlast.simps)
qed


lemma MHESA_naive_output:
  fixes m :: MHESA and x :: mat
  assumes "x \<noteq> []" "\<not> (training d \<and> 0 < drop_p d)"
  defines "X \<equiv> map (\<lambda>xh. map2 (map2 (-)) (tl xh) (butlast xh))
              (map2 (#) (initial_state m) (split_heads (heads m) (map (Linear_forward (project_in m)) x)))"
  defines "W \<equiv> map (\<lambda>a. Aes_weights a (length x)) (map sigmoid (alpha m))"
  shows "those (map2 conv1d_fft X W) = Some (naive_Aes d X W)"
proof -
  have "conv1d_fft (X ! h) (W ! h) = Some (naive_Aes_head d h (X ! h) (W ! h))"
    if "h < min (length X) (length W)" for h
  proof -
    have "X ! h \<in> set X" using that by simp
    then have lx: "length (X ! h) = length x"
      unfolding X_def by (rule MHESA_heads_length)
    have "W ! h \<in> set W" using that by simp
    then have lw: "length (W ! h) = length x"
      unfolding W_def by (auto simp: Aes_weights_def)
    have "X ! h \<noteq> []" using lx assms(1) by auto
    then show ?thesis
      using lx lw assms(2) by (intro conv1d_fft_eq_naive) simp_all
  qed
  then show ?thesis
    unfolding naive_Aes_def by (subst map2_as_map_upt) (intro those_map_Some, simp)
qed

lemma MHESA_paths_agree:
  assumes "x \<noteq> []" "\<not> (training (dropout m) \<and> 0 < drop_p (dropout m))"
  shows "MHESA_forward m x True = MHESA_forward m x False"
  using MHESA_naive_output [OF assms, of m]
  by (simp add: MHESA_forward_def Let_def)

text \<open>C1 (as amended). For every setting of the parameters in which dropout is inactive
  (probability 0, or evaluation mode) and every input with at least one time step,
  \<open>MHESA_forward\<close> returns, and returns the same tensor, with \<open>naive = True\<close> (gather and
  lower triangle) and with \<open>naive = False\<close> (transforms). Floats are idealised as reals, so
  the equality is exact.\<close>

theorem MHESA_naive_equals_fft:
  "(\<not> (training (dropout m) \<and> 0 < drop_p (dropout m)) \<and> x \<noteq> [] \<longrightarrow>
      (\<exists>y. MHESA_forward m x True = Some y \<and> MHESA_forward m x False = Some y))
   \<and> (\<not> (training (dropout m) \<and> 0 < drop_p (dropout m)) \<and> list_all (\<lambda>xb. xb \<noteq> []) X \<longrightarrow>
        MHESA_forward_batch m X True = MHESA_forward_batch m X False)"
proof (intro conjI impI)
  assume a: "\<not> (training (dropout m) \<and> 0 < drop_p (dropout m)) \<and> x \<noteq> []"
  then have eq: "MHESA_forward m x False = MHESA_forward m x True"
    by (intro MHESA_paths_agree [symmetric]) simp_all
  obtain y where "MHESA_forward m x True = Some y"
    by (simp add: MHESA_forward_def Let_def)
  then show "\<exists>y. MHESA_forward m x True = Some y \<and> MHESA_forward m x False = Some y"
    by (simp only: eq) blast
next
  assume a: "\<not> (training (dropout m) \<and> 0 < drop_p (dropout m)) \<and> list_all (\<lambda>xb. xb \<noteq> []) X"
  then have "map (\<lambda>xb. MHESA_forward m xb True) X = map (\<lambda>xb. MHESA_forward m xb False) X"
    by (intro map_cong refl MHESA_paths_agree) (simp_all add: list_all_iff)
  then show "MHESA_forward_batch m X True = MHESA_forward_batch m X False"
    by (simp only: MHESA_forward_batch_def)
qed

theorem MHESA_naive_equals_fft_witness:
  "\<not> (training (dropout example_mhesa) \<and> 0 < drop_p (dropout example_mhesa))
   \<and> [[1::real], [2]] \<noteq> []
   \<and> (\<exists>y. MHESA_forward example_mhesa [[1], [2]] True = Some y
          \<and> MHESA_forward example_mhesa [[1], [2]] False = Some y)
   \<and> MHESA_forward_batch example_mhesa [[[1], [2]], [[3], [4]]] True
       = MHESA_forward_batch example_mhesa [[[1], [2]], [[3], [4]]] False"
  using MHESA_naive_equals_fft [of example_mhesa "[[1], [2]]" "[[[1], [2]], [[3], [4]]]"]
  by (simp add: example_mhesa_def example_dropout_def)

text \<open>C1 as stated fails in two ways. On an input with no time step the gather path returns
  the empty tensor and the transform path raises (the transform length \<open>N + M - 1\<close> is not
  positive). With dropout active the gather path drops and rescales its weights and the
  transform path does not: on the single step \<open>[[1]]\<close> with every weight dropped the gather
  path returns \<open>[[0]]\<close> and the transform path \<open>[[1 / 2]]\<close>.\<close>

theorem MHESA_naive_fft_counterexample:
  "MHESA_forward example_mhesa [] True = Some []
   \<and> MHESA_forward example_mhesa [] False = None
   \<and> MHESA_forward (example_mhesa\<lparr>dropout := example_dropout_active\<rparr>) [[1]] True = Some [[0]]
   \<and> MHESA_forward (example_mhesa\<lparr>dropout := example_dropout_active\<rparr>) [[1]] False = Some [[1 / 2]]"
proof -
  have s: "sigmoid 0 = 1 / 2" by (simp add: sigmoid_def)
  have c: "conv1d_fft [[1]] [1 / 2] = Some [[1 / 2]]"
    using conv1d_fft_eq_direct [of "[1 / 2]" "[[1]]"]
    by (simp add: from_columns_def ncols_def column_def direct_causal_convolution_def)
  have e: "conv1d_fft [] [] = None"
    by (simp add: conv1d_fft_def next_fast_len_small)
  have "MHESA_forward example_mhesa [] True = Some []"
    by (simp add: MHESA_forward_def example_mhesa_def example_linear_def split_heads_def
        ncols_def Aes_weights_def init_weight_def naive_Aes_def naive_Aes_head_def
        merge_heads_def Let_def)
  moreover have "MHESA_forward example_mhesa [] False = None"
    by (simp add: MHESA_forward_def example_mhesa_def example_linear_def split_heads_def
        ncols_def Aes_weights_def e Let_def)
  moreover have "MHESA_forward (example_mhesa\<lparr>dropout := example_dropout_active\<rparr>) [[1]] True = Some [[0]]"
    by (simp add: MHESA_forward_def example_mhesa_def example_linear_def split_heads_def
        ncols_def Aes_weights_def init_weight_def naive_Aes_def naive_Aes_head_def
        naive_Aes_weights_def tril_def dropout_weights_def naive_Aes_indices_def gather_def
        Dropout_forward_def example_dropout_active_def Linear_forward_def
        merge_heads_def s Let_def)
  moreover have "MHESA_forward (example_mhesa\<lparr>dropout := example_dropout_active\<rparr>) [[1]] False = Some [[1 / 2]]"
    by (simp add: MHESA_forward_def example_mhesa_def example_linear_def split_heads_def
        ncols_def Aes_weights_def init_weight_def Linear_forward_def
        merge_heads_def s c Let_def)
  ultimately show ?thesis by blast
qed

section \<open>Frequency attention\<close>

lemma cis_minus_pi: "cis (- pi) = - 1"
  by (simp add: cis_cnj [symmetric])

lemma lessThan_two: "{..<2::nat} = {0, 1}"
  by auto

lemma rfft_two: "rfft (Suc (Suc 0)) [a, b] = [complex_of_real (a + b), complex_of_real (a - b)]"
proof -
  have "rfft 2 [a, b] = [complex_of_real (a + b), complex_of_real (a - b)]"
    by (simp add: rfft_def dft_def pad_to_def lessThan_two cis_minus_pi upt_rec numeral_nat)
  then show ?thesis by (simp add: numeral_2_eq_2)
qed

lemma irfft_two: "irfft (Suc (Suc 0)) [f0, f1] = [(Re f0 + Re f1) / 2, (Re f0 - Re f1) / 2]"
proof -
  have "irfft 2 [f0, f1] = [(Re f0 + Re f1) / 2, (Re f0 - Re f1) / 2]"
    by (simp add: irfft_def hermitian_ext_def pad_to_def lessThan_two upt_rec numeral_nat)
  then show ?thesis by (simp add: numeral_2_eq_2)
qed

lemma length_scatter [simp]: "length (scatter self index src) = length self"
proof -
  have "length (fold (\<lambda>j acc. acc[index ! j := src ! j]) js acc) = length acc" for js acc
    by (induction js arbitrary: acc) simp_all
  then show ?thesis by (simp add: scatter_def)
qed

lemma FrequencyAttention_channel_length:
  assumes "2 \<le> length x" "k \<le> length x div 2 + 1"
  shows "\<exists>y. FrequencyAttention_channel k x = Some y \<and> length y = 2 * (length x div 2)"
proof -
  from assms have "x \<noteq> []" by auto
  then show ?thesis
    using assms by (simp add: FrequencyAttention_channel_def Let_def topk_def)
qed

lemma those_Some_length:
  assumes "\<And>x. x \<in> set xs \<Longrightarrow> \<exists>y. f x = Some y \<and> P y"
  shows "\<exists>ys. those (map f xs) = Some ys \<and> length ys = length xs \<and> list_all P ys"
  using assms
proof (induction xs)
  case Nil
  then show ?case by simp
next
  case (Cons a xs)
  then obtain y ys where "f a = Some y" "P y" "those (map f xs) = Some ys" "length ys = length xs" "list_all P ys"
    by (metis list.set_intros(1) list.set_intros(2))
  then show ?case by simp
qed

lemma FrequencyAttention_forward_length:
  assumes "2 \<le> length x" "K fa \<le> length x div 2 + 1"
  shows "\<exists>y. FrequencyAttention_forward fa x = Some y \<and> is_mat (2 * (length x div 2)) (ncols x) y"
proof -
  have "\<exists>y. FrequencyAttention_channel (K fa) (column c x) = Some y \<and> length y = 2 * (length x div 2)" for c
    using assms FrequencyAttention_channel_length [of "column c x" "K fa"] by (simp add: column_def)
  then obtain cs where "those (map (\<lambda>c. FrequencyAttention_channel (K fa) (column c x)) [0..<ncols x]) = Some cs"
    "length cs = ncols x"
    using those_Some_length [of "[0..<ncols x]" "\<lambda>c. FrequencyAttention_channel (K fa) (column c x)" "\<lambda>y. length y = 2 * (length x div 2)"]
    by auto
  moreover have "length x \<noteq> 0" "\<not> length x div 2 + 1 < K fa" "2 * (length x div 2) \<noteq> 0"
    using assms by auto
  ultimately show ?thesis
    by (simp add: FrequencyAttention_forward_def is_mat_def from_columns_def list_all_iff)
qed

lemma FrequencyAttention_channel_first_pass: "FrequencyAttention_channel (Suc 0) [3 / 2, - (1 / 2)] = Some [1 / 2, - (1 / 2)]"
  by (simp add: FrequencyAttention_channel_def Let_def rfft_two irfft_two topk_def scatter_def upt_rec numeral_nat)

lemma FrequencyAttention_channel_second_pass: "FrequencyAttention_channel (Suc 0) [1 / 2, - (1 / 2)] = Some [0, 0]"
  by (simp add: FrequencyAttention_channel_def Let_def rfft_two irfft_two topk_def scatter_def upt_rec numeral_nat)

text \<open>C4. Frequency attention is not idempotent. \<open>scatter\<close> writes at the \<open>j\<close>-th selected index
  the \<open>j\<close>-th bin of the spectrum, not the selected bin. On the series \<open>[1.5, -0.5]\<close> with
  \<open>K = 1\<close> the spectrum is \<open>[1, 2]\<close>; bin 1 is selected and receives the value of bin 0, so the
  first pass returns \<open>[0.5, -0.5]\<close>, whose spectrum is \<open>[0, 1]\<close>; the second pass selects bin 1
  again, writes the value 0 of bin 0 there and returns \<open>[0, 0]\<close>.\<close>

theorem FrequencyAttention_not_idempotent:
  "FrequencyAttention_forward \<lparr>K = 1\<rparr> [[3 / 2], [- 1 / 2]] = Some [[1 / 2], [- 1 / 2]]
   \<and> FrequencyAttention_forward \<lparr>K = 1\<rparr> [[1 / 2], [- 1 / 2]] = Some [[0], [0]]"
  by (simp add: FrequencyAttention_forward_def ncols_def column_def from_columns_def
      FrequencyAttention_channel_first_pass FrequencyAttention_channel_second_pass upt_rec numeral_nat)

text \<open>C5. The inverse transform is called without a length, so it returns
  \<open>2 * (m - 1)\<close> samples for \<open>m = n div 2 + 1\<close> bins: a series of odd length \<open>n\<close> comes back
  with \<open>n - 1\<close> time steps. A series of length 3 comes back with length 2.\<close>

theorem FrequencyAttention_odd_length:
  "map_option length (FrequencyAttention_forward \<lparr>K = 1\<rparr> [[1], [2], [3]]) = Some 2"
  using FrequencyAttention_forward_length [of "[[1], [2], [3]]" "\<lparr>K = 1\<rparr>"]
  by (auto simp: is_mat_def)

section \<open>Shapes through the forward pass\<close>


lemma is_mat_nonempty: "is_mat n d x \<Longrightarrow> 0 < n \<Longrightarrow> x \<noteq> []"
  by (auto simp: is_mat_def)

















lemma LevelStack_constant:
  "LevelStack_forward x steps = Some out \<Longrightarrow> out = replicate steps (last x)"
  by (auto simp: LevelStack_forward_def split: if_splits)










end
